theory Spec2Isabelle
  imports Main "HOL-Library.Sublist"
begin

section \<open>Python strings\<close>

text \<open>
  The three scripts (\<^verbatim>\<open>simple_agent.py\<close>, \<^verbatim>\<open>function_calling_demo.py\<close>,
  \<^verbatim>\<open>react_agent_demo.py\<close>) work on Python \<^verbatim>\<open>str\<close> values. A \<^verbatim>\<open>str\<close> is a sequence of
  code points; it is modelled as a \<^typ>\<open>string\<close> whose characters are the code points
  below 256 (Latin-1). The string methods the scripts call are given on that range as
  Python defines them.
\<close>

text \<open>
  \<^verbatim>\<open>str.lower()\<close>: below 256 the cased upper-case letters are \<^verbatim>\<open>A..Z\<close> (65..90) and
  \<^verbatim>\<open>U+00C0..U+00DE\<close> without the multiplication sign \<^verbatim>\<open>U+00D7\<close>; each maps to the code
  point 32 above it. Every other character is kept.
\<close>

definition lower_char :: "char \<Rightarrow> char" where
  "lower_char c = (let n = (of_char c :: nat) in
     if (65 \<le> n \<and> n \<le> 90) \<or> (192 \<le> n \<and> n \<le> 222 \<and> n \<noteq> 215)
     then char_of (n + 32) else c)"

definition str_lower :: "string \<Rightarrow> string" where
  "str_lower s = map lower_char s"

text \<open>
  \<^verbatim>\<open>str.isspace()\<close> on one character: tab, line feed, vertical tab, form feed, carriage
  return (9..13), the separators 28..31, space (32), next line (133) and no-break
  space (160).
\<close>

definition isspace :: "char \<Rightarrow> bool" where
  "isspace c = (let n = (of_char c :: nat) in
     (9 \<le> n \<and> n \<le> 13) \<or> (28 \<le> n \<and> n \<le> 32) \<or> n = 133 \<or> n = 160)"

text \<open>\<^verbatim>\<open>str.strip()\<close> without argument removes leading and trailing whitespace.\<close>

definition str_strip :: "string \<Rightarrow> string" where
  "str_strip s = rev (dropWhile isspace (rev (dropWhile isspace s)))"

text \<open>
  \<^verbatim>\<open>key in s\<close> on two strings is the substring test: scan \<^verbatim>\<open>s\<close> from the left for a
  position where \<^verbatim>\<open>key\<close> starts.
\<close>

fun starts_with :: "string \<Rightarrow> string \<Rightarrow> bool" where
  "starts_with [] s = True"
| "starts_with (k # ks) [] = False"
| "starts_with (k # ks) (c # cs) = (k = c \<and> starts_with ks cs)"

fun str_contains :: "string \<Rightarrow> string \<Rightarrow> bool" where
  "str_contains key [] = starts_with key []"
| "str_contains key (c # cs) = (starts_with key (c # cs) \<or> str_contains key cs)"

section \<open>The search tool of the ReAct demo\<close>

text \<open>
  \<^verbatim>\<open>search\<close> in \<^verbatim>\<open>react_agent_demo.py\<close>. The dictionary \<^verbatim>\<open>results\<close> is an association
  list in insertion order, which is the order \<^verbatim>\<open>for key in results\<close> visits the keys in.
\<close>

definition results :: "(string \<times> string) list" where
  "results =
    [(''python'',
      ''Python is a high-level programming language created by Guido van Rossum in 1991.''),
     (''ai'',
      ''Artificial Intelligence is the simulation of human intelligence by machines.''),
     (''gemini'',
      ''Gemini is Google's family of multimodal AI models.'')]"

text \<open>
  The \<^verbatim>\<open>for\<close> loop: return \<^verbatim>\<open>results[key]\<close> at the first key contained in
  \<^verbatim>\<open>query.lower()\<close>; \<open>None\<close> when the loop falls through.
\<close>

fun search_loop :: "(string \<times> string) list \<Rightarrow> string \<Rightarrow> string option" where
  "search_loop [] query = None"
| "search_loop ((key, val) # rest) query =
     (if str_contains key (str_lower query) then Some val else search_loop rest query)"

definition search :: "string \<Rightarrow> string" where
  "search query =
     (case search_loop results query of
        Some r \<Rightarrow> r
      | None \<Rightarrow> ''Search results for '' @ [CHR 0x27] @ query @ [CHR 0x27]
                 @ '': Information about '' @ query)"

section \<open>Exceptions\<close>

text \<open>
  A raised Python exception. The handlers of the scripts are all \<^verbatim>\<open>except Exception as e\<close>,
  which catches an exception exactly when its class derives from \<^verbatim>\<open>Exception\<close>; the
  classes that derive from \<^verbatim>\<open>BaseException\<close> only (\<^verbatim>\<open>SystemExit\<close>,
  \<^verbatim>\<open>KeyboardInterrupt\<close>, \<^verbatim>\<open>GeneratorExit\<close>) pass through such a handler.
  \<open>exc_str\<close> is what \<^verbatim>\<open>str(e)\<close>, and so the \<^verbatim>\<open>{e}\<close> of an f-string, does: it gives
  the exception's text (\<open>Inr\<close>), or the \<^verbatim>\<open>__str__\<close> of the exception raises in its turn
  (\<open>Inl\<close> of what it raises).
\<close>

datatype exc_base = DerivesException | BaseExceptionOnly

datatype py_exc = PyExc (exc_base: exc_base) (exc_class: string) (exc_str: "py_exc + string")

definition caught_by_except_Exception :: "py_exc \<Rightarrow> bool" where
  "caught_by_except_Exception e = (exc_base e = DerivesException)"

text \<open>
  The f-string \<^verbatim>\<open>f"<before>{e}<after>"\<close> on an exception \<open>e\<close>: the text around
  \<^verbatim>\<open>str(e)\<close>, or what \<^verbatim>\<open>str(e)\<close> raises.
\<close>

definition format_exc :: "string \<Rightarrow> py_exc \<Rightarrow> string \<Rightarrow> py_exc + string" where
  "format_exc before e after =
     (case exc_str e of
        Inl raised \<Rightarrow> Inl raised
      | Inr description \<Rightarrow> Inr (before @ description @ after))"

section \<open>The console loop\<close>

text \<open>
  What a run does to the outside world, in order: \<open>Prompt p\<close> is \<^verbatim>\<open>input(p)\<close> writing
  its prompt and reading a line, \<open>Print s\<close> is \<^verbatim>\<open>print(s)\<close> (the line terminator that
  \<^verbatim>\<open>print\<close> adds is not part of \<open>s\<close>), \<open>Send s\<close> is a call
  \<^verbatim>\<open>chat.send_message(s)\<close>.
\<close>

datatype event = Prompt string | Print string | Send string

text \<open>
  How \<^verbatim>\<open>main\<close> ends: \<open>Returned\<close> after \<^verbatim>\<open>break\<close>, or \<open>Raised e\<close> when an exception
  leaves the function (the process then ends with a traceback).
\<close>

datatype ending = Returned | Raised py_exc

text \<open>
  The chat session is an object of the client library. Its state is a value of a type
  \<open>'c\<close> the scripts never look into, and \<^verbatim>\<open>chat.send_message(text)\<close> followed by reading
  \<^verbatim>\<open>response.text\<close> is a parameter \<open>send_message\<close>: from the state and the text to the
  state afterwards and either the exception raised or the reply text.
\<close>

type_synonym 'c send_message = "'c \<Rightarrow> string \<Rightarrow> 'c \<times> (py_exc + string)"

definition exit_words :: "string list" where
  "exit_words = [''exit'', ''quit'', ''bye'']"

definition newline :: string where
  "newline = [CHR 0x0A]"

text \<open>\<^verbatim>\<open>input\<close> at the end of the input raises \<^verbatim>\<open>EOFError\<close>, outside any handler.\<close>

definition EOFError :: py_exc where
  "EOFError = PyExc DerivesException ''EOFError'' (Inr ''EOF when reading a line'')"

text \<open>
  One pass through the body of \<^verbatim>\<open>while True\<close> on the line \<open>user_input\<close> that
  \<^verbatim>\<open>input("You: ")\<close> returned. The result is the events of the pass after the prompt,
  the session after the pass, and \<open>None\<close> when the loop goes round again, \<open>Some\<close> of
  the ending otherwise. The handler \<^verbatim>\<open>print(f"Error: {e}\n")\<close> runs outside the \<^verbatim>\<open>try\<close>: what
  \<^verbatim>\<open>str(e)\<close> raises there leaves \<^verbatim>\<open>main\<close>. \<open>thinking\<close> is what the \<^verbatim>\<open>try\<close> block prints
  before the call:
  nothing in \<^verbatim>\<open>simple_agent.py\<close> and \<^verbatim>\<open>function_calling_demo.py\<close>, one line in
  \<^verbatim>\<open>react_agent_demo.py\<close>.
\<close>

definition loop_body ::
  "string list \<Rightarrow> 'c send_message \<Rightarrow> 'c \<Rightarrow> string \<Rightarrow> event list \<times> 'c \<times> ending option" where
  "loop_body thinking send_message chat user_input =
     (if str_lower user_input \<in> set exit_words then
        ([Print ''Agent: Goodbye!''], chat, Some Returned)
      else if str_strip user_input = [] then
        ([], chat, None)
      else
        (case send_message chat user_input of
           (chat', Inr text) \<Rightarrow>
             (map Print thinking @ [Send user_input, Print (''Agent: '' @ text @ newline)],
              chat', None)
         | (chat', Inl e) \<Rightarrow>
             if caught_by_except_Exception e then
               (case format_exc ''Error: '' e newline of
                  Inr line \<Rightarrow>
                    (map Print thinking @ [Send user_input, Print line], chat', None)
                | Inl raised \<Rightarrow>
                    (map Print thinking @ [Send user_input], chat', Some (Raised raised)))
             else
               (map Print thinking @ [Send user_input], chat', Some (Raised e))))"

text \<open>
  The \<^verbatim>\<open>while True\<close> loop on the lines that standard input holds. It ends at an exit
  word, at an exception that leaves the body, or with \<^verbatim>\<open>EOFError\<close> when the input is
  used up. The result is the events, the session at the end and the ending.
\<close>

fun main_loop ::
  "string list \<Rightarrow> 'c send_message \<Rightarrow> 'c \<Rightarrow> string list \<Rightarrow> event list \<times> 'c \<times> ending" where
  "main_loop thinking send_message chat [] = ([Prompt ''You: ''], chat, Raised EOFError)"
| "main_loop thinking send_message chat (user_input # rest) =
     (case loop_body thinking send_message chat user_input of
        (evs, chat', Some end) \<Rightarrow> (Prompt ''You: '' # evs, chat', end)
      | (evs, chat', None) \<Rightarrow>
          (case main_loop thinking send_message chat' rest of
             (evs', final) \<Rightarrow> (Prompt ''You: '' # evs @ evs', final)))"

text \<open>The three scripts' loops.\<close>

definition simple_agent_loop ::
  "'c send_message \<Rightarrow> 'c \<Rightarrow> string list \<Rightarrow> event list \<times> 'c \<times> ending" where
  "simple_agent_loop = main_loop []"

definition function_calling_loop ::
  "'c send_message \<Rightarrow> 'c \<Rightarrow> string list \<Rightarrow> event list \<times> 'c \<times> ending" where
  "function_calling_loop = main_loop []"

definition react_agent_loop ::
  "'c send_message \<Rightarrow> 'c \<Rightarrow> string list \<Rightarrow> event list \<times> 'c \<times> ending" where
  "react_agent_loop = main_loop [newline @ ''Agent thinking...'' @ newline]"

text \<open>The texts a run sent to the backend, in order.\<close>

fun sends :: "event list \<Rightarrow> string list" where
  "sends [] = []"
| "sends (Send s # evs) = s # sends evs"
| "sends (_ # evs) = sends evs"

section \<open>The calculate tool\<close>

text \<open>
  \<^verbatim>\<open>calculate\<close> calls the builtins \<^verbatim>\<open>eval\<close> and \<^verbatim>\<open>str\<close> inside \<^verbatim>\<open>try\<close>. Both are
  parameters here: \<open>py_eval\<close> takes the expression text to the exception raised or the
  value, \<open>py_str\<close> takes a value to the exception its \<^verbatim>\<open>__str__\<close> raises or its text.
\<close>

type_synonym 'v py_eval = "string \<Rightarrow> py_exc + 'v"

type_synonym 'v py_str = "'v \<Rightarrow> py_exc + string"

text \<open>
  \<^verbatim>\<open>except Exception as e: return handler(e)\<close> applied to a raised exception: what the
  handler does when the clause catches it (the handler runs outside the \<^verbatim>\<open>try\<close>, so
  what it raises leaves the function), the exception still raised otherwise.
\<close>

definition except_Exception :: "(py_exc \<Rightarrow> py_exc + 'a) \<Rightarrow> py_exc \<Rightarrow> py_exc + 'a" where
  "except_Exception handler e =
     (if caught_by_except_Exception e then handler e else Inl e)"

text \<open>\<^verbatim>\<open>calculate\<close> of \<^verbatim>\<open>function_calling_demo.py\<close>.\<close>

definition calculate :: "'v py_eval \<Rightarrow> 'v py_str \<Rightarrow> string \<Rightarrow> py_exc + string" where
  "calculate py_eval py_str expression =
     (case py_eval expression of
        Inl e \<Rightarrow> except_Exception (\<lambda>e. format_exc ''Error: '' e []) e
      | Inr result \<Rightarrow>
          (case py_str result of
             Inl e \<Rightarrow> except_Exception (\<lambda>e. format_exc ''Error: '' e []) e
           | Inr text \<Rightarrow> Inr text))"

text \<open>\<^verbatim>\<open>calculate\<close> of \<^verbatim>\<open>react_agent_demo.py\<close>: the same but for the text of the handler.\<close>

definition react_calculate :: "'v py_eval \<Rightarrow> 'v py_str \<Rightarrow> string \<Rightarrow> py_exc + string" where
  "react_calculate py_eval py_str expression =
     (case py_eval expression of
        Inl e \<Rightarrow> except_Exception (\<lambda>e. format_exc ''Calculation error: '' e []) e
      | Inr result \<Rightarrow>
          (case py_str result of
             Inl e \<Rightarrow> except_Exception (\<lambda>e. format_exc ''Calculation error: '' e []) e
           | Inr text \<Rightarrow> Inr text))"

text \<open>
  The restricted evaluator the specification asks for accepts a grammar over numeric
  literals and \<^verbatim>\<open>+ - * / ( )\<close>. Every text of that grammar is written in this alphabet
  (digits, the decimal point, the four operators, the parentheses, the blank).
\<close>

definition arithmetic_char :: "char \<Rightarrow> bool" where
  "arithmetic_char c = (c \<in> set ''0123456789.+-*/() '')"

definition arithmetic_alphabet :: "string \<Rightarrow> bool" where
  "arithmetic_alphabet expression = list_all arithmetic_char expression"

subsection \<open>Concrete values and a concrete evaluator\<close>

text \<open>Some Python values and \<^verbatim>\<open>str\<close> on them, for concrete runs.\<close>

datatype py_value = PyInt int | PyStr string | PyNone

function str_nat :: "nat \<Rightarrow> string" where
  "str_nat n = (if n < 10 then [char_of (48 + n)]
                else str_nat (n div 10) @ [char_of (48 + n mod 10)])"
  by pat_completeness auto
termination
  by (relation "measure id") auto

declare str_nat.simps [simp del]

definition str_int :: "int \<Rightarrow> string" where
  "str_int i = (if i < 0 then CHR ''-'' # str_nat (nat (- i)) else str_nat (nat i))"

fun str_value :: "py_value py_str" where
  "str_value (PyInt i) = Inr (str_int i)"
| "str_value (PyStr s) = Inr s"
| "str_value PyNone = Inr ''None''"

text \<open>
  What the builtin \<^verbatim>\<open>eval\<close> does on five expression texts: a product, a division by
  zero, a call of a builtin function, a call of \<^verbatim>\<open>sys.exit\<close>, and a dictionary lookup
  that raises a \<^verbatim>\<open>KeyError\<close> whose \<^verbatim>\<open>str\<close> raises in its turn (it takes the \<^verbatim>\<open>repr\<close> of
  the key, which divides by zero). The concrete runs use it at these five texts only;
  the answer elsewhere stands for nothing.
\<close>

definition sample_eval :: "py_value py_eval" where
  "sample_eval expression =
     (if expression = ''15 * 24'' then Inr (PyInt 360)
      else if expression = ''1/0'' then
        Inl (PyExc DerivesException ''ZeroDivisionError'' (Inr ''division by zero''))
      else if expression = ''len('abc')'' then Inr (PyInt 3)
      else if expression = ''__import__('sys').exit()'' then
        Inl (PyExc BaseExceptionOnly ''SystemExit'' (Inr []))
      else if expression = ''{}[type('K',(),{'__repr__':lambda s:1/0})()]'' then
        Inl (PyExc DerivesException ''KeyError''
               (Inl (PyExc DerivesException ''ZeroDivisionError'' (Inr ''division by zero''))))
      else Inl (PyExc DerivesException ''SyntaxError'' (Inr ''invalid syntax'')))"

subsection \<open>Concrete chat sessions\<close>

text \<open>
  Two stand-ins for the client library's session, for concrete runs. The state is the
  list of texts received. The first answers every text, the second is interrupted
  (\<^verbatim>\<open>KeyboardInterrupt\<close>, not an \<^verbatim>\<open>Exception\<close>) at every call.
\<close>

definition echo_chat :: "string list send_message" where
  "echo_chat chat text = (chat @ [text], Inr (''You said: '' @ text))"

definition interrupted_chat :: "string list send_message" where
  "interrupted_chat chat text =
     (chat, Inl (PyExc BaseExceptionOnly ''KeyboardInterrupt'' (Inr [])))"

section \<open>The tool registry of the specification\<close>

text \<open>
  Modelled from the spec: \<^verbatim>\<open>Tool\<close> (section 3). The scripts have no such type: they
  hand a list of Python functions to the client library. A tool has a name, a
  description, a declared input schema (argument name to type) and a body.
\<close>

record 'b tool =
  tool_name :: string
  tool_description :: string
  tool_schema :: "(string \<times> string) list"
  tool_body :: 'b

text \<open>
  Modelled from the spec: the errors of \<^verbatim>\<open>ToolRegistry\<close> (sections 4.1 and 7), which the
  scripts do not have.
\<close>

datatype registry_error = DuplicateToolError string | UnknownToolError string

text \<open>
  Modelled from the spec: the duplicate policy of \<^verbatim>\<open>ToolRegistry\<close> (sections 3 and 4.1),
  which the scripts do not have: a duplicate name is rejected or replaces the earlier
  tool; the default is to reject.
\<close>

datatype duplicate_policy = Reject | Replace

definition default_policy :: duplicate_policy where
  "default_policy = Reject"

text \<open>
  Modelled from the spec: \<^verbatim>\<open>ToolRegistry.register\<close> (section 4.1), absent from the
  scripts. The registry is the list of its tools in registration order. Registering adds
  the tool at the end; when the name exists already it fails with
  \<^verbatim>\<open>DuplicateToolError\<close> under the rejecting policy and puts the new tool in the place of
  the old one under the replacing policy.
\<close>

definition register ::
  "duplicate_policy \<Rightarrow> 'b tool \<Rightarrow> 'b tool list \<Rightarrow> registry_error + 'b tool list" where
  "register policy t registry =
     (if tool_name t \<in> set (map tool_name registry) then
        (case policy of
           Reject \<Rightarrow> Inl (DuplicateToolError (tool_name t))
         | Replace \<Rightarrow> Inr (map (\<lambda>u. if tool_name u = tool_name t then t else u) registry))
      else Inr (registry @ [t]))"

text \<open>
  Modelled from the spec: \<^verbatim>\<open>ToolRegistry.resolve\<close> (section 4.1), absent from the
  scripts: the tool of that name, \<^verbatim>\<open>UnknownToolError\<close> when there is none.
\<close>

definition resolve :: "string \<Rightarrow> 'b tool list \<Rightarrow> registry_error + 'b tool" where
  "resolve name registry =
     (case find (\<lambda>t. tool_name t = name) registry of
        None \<Rightarrow> Inl (UnknownToolError name)
      | Some t \<Rightarrow> Inr t)"

text \<open>
  Modelled from the spec: \<^verbatim>\<open>ToolRegistry.list\<close> (section 4.1), absent from the scripts:
  the tools in registration order.
\<close>

definition list_tools :: "'b tool list \<Rightarrow> 'b tool list" where
  "list_tools registry = registry"

text \<open>
  Modelled from the spec: a sequence of registrations (section 8, "sequences of
  registered tools"), one \<^verbatim>\<open>register\<close> after the other, stopping at the first that
  fails.
\<close>

fun register_all ::
  "duplicate_policy \<Rightarrow> 'b tool list \<Rightarrow> 'b tool list \<Rightarrow> registry_error + 'b tool list" where
  "register_all policy [] registry = Inr registry"
| "register_all policy (t # ts) registry =
     (case register policy t registry of
        Inl err \<Rightarrow> Inl err
      | Inr registry' \<Rightarrow> register_all policy ts registry')"

text \<open>
  The tools of \<^verbatim>\<open>function_calling_demo.py\<close> as \<^verbatim>\<open>Tool\<close> values, in the order of its
  \<^verbatim>\<open>tools\<close> list, with the first line of each docstring as description; the body is
  left out (unit).
\<close>

definition demo_tools :: "unit tool list" where
  "demo_tools =
     [\<lparr>tool_name = ''get_current_time'', tool_description = ''Get the current time.'',
       tool_schema = [], tool_body = ()\<rparr>,
      \<lparr>tool_name = ''calculate'', tool_description = ''Calculate a mathematical expression.'',
       tool_schema = [(''expression'', ''str'')], tool_body = ()\<rparr>,
      \<lparr>tool_name = ''search_info'', tool_description = ''Search for information (simulated).'',
       tool_schema = [(''query'', ''str'')], tool_body = ()\<rparr>]"

section \<open>The conversation session of the specification\<close>

text \<open>
  Modelled from the spec: \<^verbatim>\<open>Message\<close> (section 3). The scripts keep no messages; the
  history is inside the client library's chat object. A message has a role and a text;
  its position is its place in the history list.
\<close>

datatype role = User | Agent | ToolObservation

datatype message = Message (role: role) (content: string)

text \<open>
  Modelled from the spec: \<^verbatim>\<open>ToolCallRequest\<close> and \<^verbatim>\<open>ToolCallResult\<close> (section 3), which
  the scripts do not have: a tool name with its arguments, and a success payload or a
  failure description.
\<close>

datatype tool_call_request =
  ToolCallRequest (request_tool: string) (request_arguments: "(string \<times> string) list")

datatype tool_call_result = Success string | Failure string

text \<open>
  Modelled from the spec: the external backend (section 6), which the scripts reach
  through the client library only. Given the ordered history it answers with a final
  text, with a list of tool-call requests, or with a failure and its cause. It may keep
  a state of its own, of type \<open>'b\<close>.
\<close>

datatype backend_reply =
  FinalReply string | ToolCalls "tool_call_request list" | BackendFailed string

type_synonym 'b backend = "'b \<Rightarrow> message list \<Rightarrow> 'b \<times> backend_reply"

text \<open>
  Modelled from the spec: the session-level errors (section 7), which the scripts do not
  have.
\<close>

datatype send_error = BackendError string | IterationBoundExceededError

text \<open>
  Modelled from the spec: \<^verbatim>\<open>ConversationSession\<close> (section 3), absent from the scripts:
  the ordered history and the backend connection. \<open>submissions\<close> counts how often the
  history has been submitted to the backend; it is there to state bounds and decides
  nothing.
\<close>

record 'b conversation_session =
  history :: "message list"
  backend_connection :: 'b
  submissions :: nat

text \<open>
  Modelled from the spec: appending to the history (section 3, "the sequence is
  append-only"), the one way the session changes its messages.
\<close>

definition append_messages ::
  "'b conversation_session \<Rightarrow> message list \<Rightarrow> 'b conversation_session" where
  "append_messages s ms = s\<lparr>history := history s @ ms\<rparr>"

text \<open>
  Modelled from the spec: one submission of the history to the backend (section 4.3,
  "forwards the full ordered history").
\<close>

definition submit ::
  "'b backend \<Rightarrow> 'b conversation_session \<Rightarrow> 'b conversation_session \<times> backend_reply" where
  "submit backend s =
     (case backend (backend_connection s) (history s) of
        (b', reply) \<Rightarrow>
          (s\<lparr>backend_connection := b', submissions := Suc (submissions s)\<rparr>, reply))"

text \<open>
  Modelled from the spec: the tool-observation message of a request (section 4.3, "its
  ToolCallResult is appended as a tool-observation Message"). \<open>invoke\<close> stands for
  resolving the request in the registry and running it through the invoker.
\<close>

definition observation ::
  "(tool_call_request \<Rightarrow> tool_call_result) \<Rightarrow> tool_call_request \<Rightarrow> message" where
  "observation invoke request =
     Message ToolObservation
       (case invoke request of Success payload \<Rightarrow> payload | Failure description \<Rightarrow> description)"

text \<open>
  Modelled from the spec: the tool-call loop of \<^verbatim>\<open>ConversationSession.send\<close> (section
  4.3), absent from the scripts. The history is submitted; a final reply is appended as
  an agent message and returned; a backend failure ends the turn with \<^verbatim>\<open>BackendError\<close>;
  tool-call requests are answered by appending their observations and submitting again,
  unless \<open>bound\<close> resend cycles have been made already, in which case the turn ends with
  \<^verbatim>\<open>IterationBoundExceededError\<close>.
\<close>

fun await_reply ::
  "'b backend \<Rightarrow> (tool_call_request \<Rightarrow> tool_call_result) \<Rightarrow> nat \<Rightarrow> 'b conversation_session
     \<Rightarrow> 'b conversation_session \<times> (send_error + string)" where
  "await_reply backend invoke bound s =
     (case submit backend s of
        (s', FinalReply text) \<Rightarrow> (append_messages s' [Message Agent text], Inr text)
      | (s', BackendFailed cause) \<Rightarrow> (s', Inl (BackendError cause))
      | (s', ToolCalls requests) \<Rightarrow>
          (case bound of
             0 \<Rightarrow> (s', Inl IterationBoundExceededError)
           | Suc n \<Rightarrow>
               await_reply backend invoke n
                 (append_messages s' (map (observation invoke) requests))))"

declare await_reply.simps [simp del]

text \<open>
  Modelled from the spec: \<^verbatim>\<open>ConversationSession.send\<close> (section 4.3), absent from the
  scripts: append the user message, then run the tool-call loop with the configured
  bound.
\<close>

definition send ::
  "'b backend \<Rightarrow> (tool_call_request \<Rightarrow> tool_call_result) \<Rightarrow> nat \<Rightarrow> 'b conversation_session
     \<Rightarrow> string \<Rightarrow> 'b conversation_session \<times> (send_error + string)" where
  "send backend invoke bound s user_text =
     await_reply backend invoke bound (append_messages s [Message User user_text])"

text \<open>
  Modelled from the spec: a run of turns on one session (section 8, "after N successful
  turns"): one \<^verbatim>\<open>send\<close> per user text, in order. The result is the session at the end
  and the replies, or \<open>None\<close> when a turn failed.
\<close>

fun successful_turns ::
  "'b backend \<Rightarrow> (tool_call_request \<Rightarrow> tool_call_result) \<Rightarrow> nat \<Rightarrow> 'b conversation_session
     \<Rightarrow> string list \<Rightarrow> ('b conversation_session \<times> string list) option" where
  "successful_turns backend invoke bound s [] = Some (s, [])"
| "successful_turns backend invoke bound s (user_text # rest) =
     (case send backend invoke bound s user_text of
        (s', Inl err) \<Rightarrow> None
      | (s', Inr reply) \<Rightarrow>
          (case successful_turns backend invoke bound s' rest of
             None \<Rightarrow> None
           | Some (s'', replies) \<Rightarrow> Some (s'', reply # replies)))"

text \<open>
  Modelled from the spec: the messages one successful turn appends (section 4.3): the
  user message, the tool observations of the turn, the agent's reply.
\<close>

definition turn_messages :: "string \<times> message list \<times> string \<Rightarrow> message list" where
  "turn_messages t =
     (case t of (user_text, observations, reply) \<Rightarrow>
        Message User user_text # observations @ [Message Agent reply])"

text \<open>
  Modelled from the spec: the session errors as the exceptions the console loop sees
  (section 4.4, "prints the error description"): both derive from \<^verbatim>\<open>Exception\<close>.
\<close>

fun raised_error :: "send_error \<Rightarrow> py_exc" where
  "raised_error (BackendError cause) = PyExc DerivesException ''BackendError'' (Inr cause)"
| "raised_error IterationBoundExceededError =
     PyExc DerivesException ''IterationBoundExceededError''
       (Inr ''tool-call iteration bound exceeded'')"

text \<open>
  Modelled from the spec: the description of a session error that the console loop
  prints (section 4.4): the underlying cause that a \<^verbatim>\<open>BackendError\<close> carries (section
  4.3), a fixed text for the exceeded bound.
\<close>

fun error_description :: "send_error \<Rightarrow> string" where
  "error_description (BackendError cause) = cause"
| "error_description IterationBoundExceededError = ''tool-call iteration bound exceeded''"

text \<open>
  Modelled from the spec: \<^verbatim>\<open>ConversationSession.send\<close> in the place of
  \<^verbatim>\<open>chat.send_message\<close> of the scripts' loop.
\<close>

definition session_send_message ::
  "'b backend \<Rightarrow> (tool_call_request \<Rightarrow> tool_call_result) \<Rightarrow> nat
     \<Rightarrow> 'b conversation_session send_message" where
  "session_send_message backend invoke bound s user_text =
     (case send backend invoke bound s user_text of
        (s', Inl err) \<Rightarrow> (s', Inl (raised_error err))
      | (s', Inr reply) \<Rightarrow> (s', Inr reply))"

subsection \<open>Concrete backends\<close>

text \<open>
  Two backends for concrete runs, without a state of their own: one asks for a
  \<^verbatim>\<open>calculate\<close> call whatever the history, one answers the last message at once. And an
  invoker that knows the product of the specification's scenario.
\<close>

definition looping_backend :: "unit backend" where
  "looping_backend b h =
     (b, ToolCalls [ToolCallRequest ''calculate'' [(''expression'', ''15 * 24'')]])"

definition replying_backend :: "unit backend" where
  "replying_backend b h =
     (b, FinalReply (case rev h of [] \<Rightarrow> ''Hello'' | m # _ \<Rightarrow> ''Re: '' @ content m))"

definition demo_invoke :: "tool_call_request \<Rightarrow> tool_call_result" where
  "demo_invoke request =
     (if request = ToolCallRequest ''calculate'' [(''expression'', ''15 * 24'')]
      then Success ''360'' else Failure ''unknown tool'')"

text \<open>
  A backend that counts its submissions: it answers the first and fails, the network
  being gone, from the second on. And the session on it after the first turn \<^verbatim>\<open>hi\<close>.
\<close>

definition flaky_backend :: "nat backend" where
  "flaky_backend n h =
     (Suc n, if n = 0 then FinalReply ''Hello'' else BackendFailed ''network unreachable'')"

definition session_after_hi :: "nat conversation_session" where
  "session_after_hi =
     \<lparr>history = [Message User ''hi'', Message Agent ''Hello''],
      backend_connection = 1, submissions = 1\<rparr>"

definition new_session :: "unit conversation_session" where
  "new_session = \<lparr>history = [], backend_connection = (), submissions = 0\<rparr>"

section \<open>Equality up to case\<close>

text \<open>
  What "equal, case-insensitively" means for a word \<open>w\<close> of lower-case ASCII letters,
  said without \<open>str_lower\<close>: the line has the length of \<open>w\<close> and each of its characters
  is the letter of \<open>w\<close> at that place or its upper-case form, 32 code points below.
\<close>

definition ascii_upper :: "char \<Rightarrow> char" where
  "ascii_upper d = char_of ((of_char d :: nat) - 32)"

definition equal_ignoring_case :: "string \<Rightarrow> string \<Rightarrow> bool" where
  "equal_ignoring_case s w = list_all2 (\<lambda>c d. c = d \<or> c = ascii_upper d) s w"

definition ascii_lowercase_letter :: "char \<Rightarrow> bool" where
  "ascii_lowercase_letter d = (97 \<le> (of_char d :: nat) \<and> (of_char d :: nat) \<le> 122)"

section \<open>Facts about the string methods\<close>

lemma starts_with_prefix: "starts_with k s \<longleftrightarrow> prefix k s"
  by (induction k s rule: starts_with.induct) simp_all

lemma str_contains_sublist: "str_contains k s \<longleftrightarrow> sublist k s"
  by (induction s) (simp_all add: starts_with_prefix sublist_Cons_right)

lemma of_char_less_256: "(of_char c :: nat) < 256"
  using range_nat_of_char by auto

lemma of_char_lower_char:
  "(of_char (lower_char c) :: nat) =
     (if (65 \<le> (of_char c :: nat) \<and> (of_char c :: nat) \<le> 90)
         \<or> (192 \<le> (of_char c :: nat) \<and> (of_char c :: nat) \<le> 222 \<and> (of_char c :: nat) \<noteq> 215)
      then of_char c + 32 else of_char c)"
  using of_char_less_256[of c] by (simp add: lower_char_def Let_def)

lemma of_char_ascii_upper:
  assumes "ascii_lowercase_letter d"
  shows "(of_char (ascii_upper d) :: nat) = of_char d - 32"
proof -
  have "(of_char d :: nat) - 32 < 256"
    using assms unfolding ascii_lowercase_letter_def by arith
  then show ?thesis
    unfolding ascii_upper_def of_char_of by (rule mod_less)
qed

lemma lower_code_eq_letter:
  fixes m n :: nat
  assumes "97 \<le> n" "n \<le> 122"
  shows "(if (65 \<le> m \<and> m \<le> 90) \<or> (192 \<le> m \<and> m \<le> 222 \<and> m \<noteq> 215) then m + 32 else m) = n
         \<longleftrightarrow> m = n \<or> m = n - 32"
  using assms by (cases "(65 \<le> m \<and> m \<le> 90) \<or> (192 \<le> m \<and> m \<le> 222 \<and> m \<noteq> 215)") (simp_all, arith+)

lemma lower_char_eq_letter:
  assumes "ascii_lowercase_letter d"
  shows "lower_char c = d \<longleftrightarrow> c = d \<or> c = ascii_upper d"
proof -
  have d: "97 \<le> (of_char d :: nat)" "(of_char d :: nat) \<le> 122"
    using assms by (simp_all add: ascii_lowercase_letter_def)
  have "lower_char c = d \<longleftrightarrow> (of_char (lower_char c) :: nat) = of_char d" by simp
  also have "\<dots> \<longleftrightarrow> (of_char c :: nat) = of_char d \<or> (of_char c :: nat) = of_char d - 32"
    unfolding of_char_lower_char by (rule lower_code_eq_letter[OF d])
  also have "\<dots> \<longleftrightarrow> (of_char c :: nat) = of_char d \<or> (of_char c :: nat) = of_char (ascii_upper d)"
    unfolding of_char_ascii_upper[OF assms] ..
  also have "\<dots> \<longleftrightarrow> c = d \<or> c = ascii_upper d" by simp
  finally show ?thesis .
qed


lemma str_lower_eq_iff:
  assumes "\<forall>d\<in>set w. ascii_lowercase_letter d"
  shows "str_lower s = w \<longleftrightarrow> equal_ignoring_case s w"
  using assms
proof (induction s arbitrary: w)
  case Nil
  then show ?case by (auto simp: str_lower_def equal_ignoring_case_def)
next
  case (Cons c s)
  show ?case
  proof (cases w)
    case Nil
    then show ?thesis by (simp add: str_lower_def equal_ignoring_case_def)
  next
    case (Cons d w')
    have "ascii_lowercase_letter d" "\<forall>d\<in>set w'. ascii_lowercase_letter d"
      using Cons.prems Cons by simp_all
    then show ?thesis
      using Cons.IH[of w'] Cons
      by (simp add: str_lower_def equal_ignoring_case_def lower_char_eq_letter)
  qed
qed

lemma exit_words_letters: "w \<in> set exit_words \<Longrightarrow> \<forall>d\<in>set w. ascii_lowercase_letter d"
  by (auto simp: exit_words_def ascii_lowercase_letter_def)

lemma isspace_lower_char: "isspace c \<Longrightarrow> lower_char c = c"
  by (auto simp: isspace_def lower_char_def Let_def)

lemma isspace_not_letter: "isspace c \<Longrightarrow> \<not> ascii_lowercase_letter c"
  by (auto simp: isspace_def ascii_lowercase_letter_def Let_def)

lemma dropWhile_all_iff: "(\<forall>c\<in>set (dropWhile P s). P c) \<longleftrightarrow> (\<forall>c\<in>set s. P c)"
  by (induction s) auto

lemma str_strip_empty_iff: "str_strip s = [] \<longleftrightarrow> (\<forall>c\<in>set s. isspace c)"
  by (simp add: str_strip_def dropWhile_eq_Nil_conv dropWhile_all_iff)

lemma exit_word_no_space:
  assumes "str_lower s \<in> set exit_words" "c \<in> set s"
  shows "\<not> isspace c"
proof
  assume sp: "isspace c"
  have "lower_char c \<in> set (str_lower s)"
    using assms(2) by (simp add: str_lower_def)
  then have "c \<in> set (str_lower s)"
    using isspace_lower_char[OF sp] by simp
  then have "ascii_lowercase_letter c"
    using exit_words_letters[OF assms(1)] by blast
  then show False using isspace_not_letter[OF sp] by simp
qed

lemma exit_word_not_empty: "str_lower s \<in> set exit_words \<Longrightarrow> s \<noteq> []"
  by (auto simp: exit_words_def str_lower_def)

lemma exit_word_not_blank:
  assumes "str_lower s \<in> set exit_words"
  shows "str_strip s \<noteq> []"
proof -
  obtain c where "c \<in> set s"
    using exit_word_not_empty[OF assms] by (cases s) auto
  then show ?thesis
    using exit_word_no_space[OF assms] by (auto simp: str_strip_empty_iff)
qed

section \<open>The search tool is a first-match keyword lookup\<close>

text \<open>
  C10. For every query, \<^verbatim>\<open>search\<close> returns the canned description of the first of the
  keys \<^verbatim>\<open>python\<close>, \<^verbatim>\<open>ai\<close>, \<^verbatim>\<open>gemini\<close>, tried in that order, that occurs as a substring of
  the lowercased query, and the fallback text
  \<^verbatim>\<open>Search results for '<query>': Information about <query>\<close> when none occurs.
\<close>

theorem search_first_matching_key:
  "search query =
     (if sublist ''python'' (str_lower query) then
        ''Python is a high-level programming language created by Guido van Rossum in 1991.''
      else if sublist ''ai'' (str_lower query) then
        ''Artificial Intelligence is the simulation of human intelligence by machines.''
      else if sublist ''gemini'' (str_lower query) then
        ''Gemini is Google's family of multimodal AI models.''
      else ''Search results for '' @ [CHR 0x27] @ query @ [CHR 0x27]
           @ '': Information about '' @ query)"
  by (simp add: search_def results_def str_contains_sublist)

section \<open>Facts about the console loop\<close>

lemma sends_append: "sends (xs @ ys) = sends xs @ sends ys"
  by (induction xs rule: sends.induct) simp_all

lemma sends_map_Print: "sends (map Print xs) = []"
  by (induction xs) simp_all

lemma loop_body_exit:
  "str_lower user_input \<in> set exit_words \<Longrightarrow>
   loop_body thinking send_message chat user_input = ([Print ''Agent: Goodbye!''], chat, Some Returned)"
  by (simp add: loop_body_def)

lemma blank_not_exit:
  assumes "\<forall>c\<in>set user_input. isspace c"
  shows "str_lower user_input \<notin> set exit_words"
proof
  assume ex: "str_lower user_input \<in> set exit_words"
  then have "str_strip user_input \<noteq> []" by (rule exit_word_not_blank)
  then show False using assms by (simp add: str_strip_empty_iff)
qed

lemma loop_body_blank:
  "\<forall>c\<in>set user_input. isspace c \<Longrightarrow>
   loop_body thinking send_message chat user_input = ([], chat, None)"
  by (simp add: loop_body_def blank_not_exit str_strip_empty_iff)

lemma loop_body_turn:
  assumes "str_lower user_input \<notin> set exit_words" "str_strip user_input \<noteq> []"
  shows "loop_body thinking send_message chat user_input =
     (case send_message chat user_input of
           (chat', Inr text) \<Rightarrow>
             (map Print thinking @ [Send user_input, Print (''Agent: '' @ text @ newline)],
              chat', None)
         | (chat', Inl e) \<Rightarrow>
             if caught_by_except_Exception e then
               (case format_exc ''Error: '' e newline of
                  Inr line \<Rightarrow>
                    (map Print thinking @ [Send user_input, Print line], chat', None)
                | Inl raised \<Rightarrow>
                    (map Print thinking @ [Send user_input], chat', Some (Raised raised)))
             else
               (map Print thinking @ [Send user_input], chat', Some (Raised e)))"
  unfolding loop_body_def by (simp only: assms if_False)

lemma main_loop_starts_with_prompt:
  "\<exists>evs. fst (main_loop thinking send_message chat lines) = Prompt ''You: '' # evs"
  by (cases lines) (auto split: prod.splits option.splits)

lemma main_loop_stops_at_exit:
  assumes "str_lower user_input \<in> set exit_words"
  shows "main_loop thinking send_message chat (before @ user_input # rest) =
         main_loop thinking send_message chat (before @ [user_input])"
proof (induction before arbitrary: chat)
  case Nil
  show ?case by (simp add: loop_body_exit[OF assms])
next
  case (Cons b before)
  show ?case by (simp add: Cons.IH split: prod.splits option.splits)
qed

section \<open>Exit words end the loop\<close>

text \<open>
  C7. A line that equals one of the words \<^verbatim>\<open>exit\<close>, \<^verbatim>\<open>quit\<close>, \<^verbatim>\<open>bye\<close> up to the case
  of its letters makes the loop print the farewell and return: the pass sends nothing,
  the session is untouched, and whatever lines follow are never read, so a run is the
  same with and without them. This holds for the loops of all three scripts (any
  \<open>thinking\<close>) and any backend.
\<close>

theorem exit_word_ends_loop:
  assumes "w \<in> set exit_words" and "equal_ignoring_case user_input w"
  shows "main_loop thinking send_message chat (user_input # rest) =
           ([Prompt ''You: '', Print ''Agent: Goodbye!''], chat, Returned)
         \<and> main_loop thinking send_message chat (before @ user_input # rest) =
           main_loop thinking send_message chat (before @ [user_input])"
proof -
  have "str_lower user_input = w"
    using assms(2) str_lower_eq_iff[OF exit_words_letters[OF assms(1)]] by simp
  then have ex: "str_lower user_input \<in> set exit_words" using assms(1) by simp
  show ?thesis
    using main_loop_stops_at_exit[OF ex] by (simp add: loop_body_exit[OF ex])
qed

theorem exit_word_ends_loop_witness:
  "main_loop [] echo_chat [] [''QuIt'', ''hello''] =
     ([Prompt ''You: '', Print ''Agent: Goodbye!''], [], Returned)
   \<and> main_loop [] echo_chat [] ([''hi''] @ ''QuIt'' # [''hello'']) =
     main_loop [] echo_chat [] ([''hi''] @ [''QuIt''])"
proof -
  have h1: "''quit'' \<in> set exit_words" by (simp add: exit_words_def)
  have h2: "equal_ignoring_case ''QuIt'' ''quit''" by code_simp
  show ?thesis by (rule exit_word_ends_loop[OF h1 h2])
qed

section \<open>Blank lines are skipped\<close>

text \<open>
  C8. A line that is empty or consists of whitespace only is a pass without effect: no
  event, no send, the session as it was; the run goes on with the next line, and the
  first thing it does there is to prompt again.
\<close>

theorem blank_line_is_skipped:
  assumes "\<forall>c\<in>set user_input. isspace c"
  shows "loop_body thinking send_message chat user_input = ([], chat, None)
         \<and> main_loop thinking send_message chat (user_input # rest) =
             (case main_loop thinking send_message chat rest of
                (evs, final) \<Rightarrow> (Prompt ''You: '' # evs, final))
         \<and> (\<exists>evs. fst (main_loop thinking send_message chat rest) = Prompt ''You: '' # evs)"
  using main_loop_starts_with_prompt[of thinking send_message chat rest]
  by (simp add: loop_body_blank[OF assms])

theorem blank_line_is_skipped_witness:
  "loop_body [] echo_chat [] ''   '' = ([], [], None)
   \<and> main_loop [] echo_chat [] [''   '', ''hi''] =
       (case main_loop [] echo_chat [] [''hi''] of
          (evs, final) \<Rightarrow> (Prompt ''You: '' # evs, final))
   \<and> (\<exists>evs. fst (main_loop [] echo_chat [] [''hi'']) = Prompt ''You: '' # evs)"
proof -
  have h: "\<forall>c\<in>set ''   ''. isspace c" by (simp add: isspace_def)
  show ?thesis by (rule blank_line_is_skipped[OF h])
qed

section \<open>The exit check reads the raw line\<close>

text \<open>
  C9. The exit check is made on the lowercased line as typed, before the blank check and
  without trimming: a line whose lowercase form is an exit word ends the loop, and an
  exit word with whitespace before or after it is not an exit word, is not blank, and is
  sent to the backend as typed.
\<close>

theorem exit_check_on_raw_line:
  "(str_lower user_input \<in> set exit_words \<longrightarrow>
      loop_body thinking send_message chat user_input =
        ([Print ''Agent: Goodbye!''], chat, Some Returned))
   \<and> (str_lower w \<in> set exit_words \<and> (\<forall>c\<in>set pad_l. isspace c)
        \<and> (\<forall>c\<in>set pad_r. isspace c) \<and> pad_l @ pad_r \<noteq> [] \<longrightarrow>
      str_lower (pad_l @ w @ pad_r) \<notin> set exit_words
      \<and> str_strip (pad_l @ w @ pad_r) \<noteq> []
      \<and> sends (fst (loop_body thinking send_message chat (pad_l @ w @ pad_r)))
          = [pad_l @ w @ pad_r])"
proof (intro conjI impI)
  assume "str_lower user_input \<in> set exit_words"
  then show "loop_body thinking send_message chat user_input =
        ([Print ''Agent: Goodbye!''], chat, Some Returned)"
    by (rule loop_body_exit)
next
  assume a: "str_lower w \<in> set exit_words \<and> (\<forall>c\<in>set pad_l. isspace c)
        \<and> (\<forall>c\<in>set pad_r. isspace c) \<and> pad_l @ pad_r \<noteq> []"
  let ?l = "pad_l @ w @ pad_r"
  from a obtain c where c: "c \<in> set ?l" "isspace c"
    by (cases pad_l; cases pad_r) auto
  show ne: "str_lower ?l \<notin> set exit_words"
    using exit_word_no_space[of ?l c] c by blast
  obtain d where d: "d \<in> set w" using exit_word_not_empty a by (cases w) auto
  have "\<not> isspace d" using exit_word_no_space[of w d] a d by blast
  then show nb: "str_strip ?l \<noteq> []"
    using d by (auto simp: str_strip_empty_iff)
  show "sends (fst (loop_body thinking send_message chat ?l)) = [?l]"
    unfolding loop_body_turn[OF ne nb]
    by (simp add: sends_append sends_map_Print split: prod.splits sum.splits)
qed

theorem exit_check_on_raw_line_witness:
  "loop_body [] echo_chat [] ''EXIT'' = ([Print ''Agent: Goodbye!''], [], Some Returned)
   \<and> str_lower '' exit '' \<notin> set exit_words
   \<and> sends (fst (loop_body [] echo_chat [] '' exit '')) = ['' exit '']"
proof -
  have h1: "str_lower ''EXIT'' \<in> set exit_words" by code_simp
  have h2: "str_lower ''exit'' \<in> set exit_words \<and> (\<forall>c\<in>set '' ''. isspace c)
        \<and> (\<forall>c\<in>set '' ''. isspace c) \<and> '' '' @ '' '' \<noteq> []"
    by code_simp
  show ?thesis
    using exit_check_on_raw_line[where user_input = "''EXIT''" and w = "''exit''"
        and pad_l = "'' ''" and pad_r = "'' ''" and thinking = "[]"
        and send_message = echo_chat and chat = "[]"] h1 h2
    by simp
qed

section \<open>The calculate tool hands its text to eval\<close>

text \<open>
  \<^verbatim>\<open>calculate\<close> looks at the expression text nowhere: whatever text \<^verbatim>\<open>eval\<close> accepts is
  evaluated and its value returned as the result.
\<close>

lemma calculate_result_of_eval:
  assumes "py_eval expression = Inr result" and "py_str result = Inr text"
  shows "calculate py_eval py_str expression = Inr text"
    and "react_calculate py_eval py_str expression = Inr text"
  using assms by (simp_all add: calculate_def react_calculate_def)

text \<open>
  C1. The claim is that \<^verbatim>\<open>calculate\<close> evaluates only what a grammar over numeric
  literals and \<^verbatim>\<open>+ - * / ( )\<close> can express. The code breaks it: the text
  \<^verbatim>\<open>len('abc')\<close>, a call of a builtin function that is not even written in the alphabet
  of that grammar, is evaluated by both \<^verbatim>\<open>calculate\<close> functions and comes back as the
  successful result \<^verbatim>\<open>3\<close>.
\<close>

theorem calculate_evaluates_beyond_arithmetic:
  "\<not> arithmetic_alphabet ''len('abc')''
   \<and> calculate sample_eval str_value ''len('abc')'' = Inr ''3''
   \<and> react_calculate sample_eval str_value ''len('abc')'' = Inr ''3''"
  by code_simp

section \<open>Failures inside calculate\<close>

text \<open>
  The handler of \<^verbatim>\<open>calculate\<close> formats the exception outside the \<^verbatim>\<open>try\<close>. When the
  \<^verbatim>\<open>str\<close> of a caught exception raises, what it raises leaves the function, whatever its
  class: so it is with the \<^verbatim>\<open>KeyError\<close> of a key whose \<^verbatim>\<open>repr\<close> divides by zero.
\<close>

lemma calculate_handler_raises:
  assumes "py_eval expression = Inl e
       \<or> (\<exists>result. py_eval expression = Inr result \<and> py_str result = Inl e)"
    and "caught_by_except_Exception e" and "exc_str e = Inl raised"
  shows "calculate py_eval py_str expression = Inl raised"
    and "react_calculate py_eval py_str expression = Inl raised"
  using assms
  by (auto simp: calculate_def react_calculate_def except_Exception_def format_exc_def)




section \<open>Registering and resolving tools\<close>

lemma register_new:
  "tool_name t \<notin> set (map tool_name registry) \<Longrightarrow> register policy t registry = Inr (registry @ [t])"
  by (simp add: register_def)

lemma register_duplicate:
  "tool_name t \<in> set (map tool_name registry) \<Longrightarrow>
   register default_policy t registry = Inl (DuplicateToolError (tool_name t))"
  by (simp add: register_def default_policy_def)

lemma register_all_distinct:
  assumes "distinct (map tool_name (registry @ ts))"
  shows "register_all policy ts registry = Inr (registry @ ts)"
  using assms
proof (induction ts arbitrary: registry)
  case Nil
  then show ?case by simp
next
  case (Cons t ts)
  have new: "tool_name t \<notin> set (map tool_name registry)"
    using Cons.prems by auto
  have "distinct (map tool_name ((registry @ [t]) @ ts))"
    using Cons.prems by simp
  then have "register_all policy ts (registry @ [t]) = Inr ((registry @ [t]) @ ts)"
    by (rule Cons.IH)
  then show ?case by (simp add: register_new[OF new])
qed

lemma find_distinct_name:
  assumes "distinct (map tool_name ts)" and "t \<in> set ts"
  shows "find (\<lambda>u. tool_name u = tool_name t) ts = Some t"
  using assms by (induction ts) (auto simp: image_iff)

lemma resolve_member:
  assumes "distinct (map tool_name ts)" and "t \<in> set ts"
  shows "resolve (tool_name t) ts = Inr t"
  by (simp add: resolve_def find_distinct_name[OF assms])

text \<open>
  C6, on the registry of the specification. Registering a sequence of tools with
  pairwise different names into the empty registry succeeds and leaves them in
  registration order; \<^verbatim>\<open>resolve\<close> of the name of any of them returns that very tool; and
  registering a further tool under a name already there fails with
  \<^verbatim>\<open>DuplicateToolError\<close> under the default policy.
\<close>

theorem resolve_returns_registered_tool:
  assumes "distinct (map tool_name ts)"
  shows "register_all default_policy ts [] = Inr ts
         \<and> list_tools ts = ts
         \<and> (\<forall>t\<in>set ts. resolve (tool_name t) ts = Inr t
               \<and> (\<forall>t'. tool_name t' = tool_name t \<longrightarrow>
                     register default_policy t' ts = Inl (DuplicateToolError (tool_name t))))"
proof (intro conjI ballI allI impI)
  show "register_all default_policy ts [] = Inr ts"
    using register_all_distinct[of "[]" ts default_policy] assms by simp
  show "list_tools ts = ts" by (simp add: list_tools_def)
next
  fix t assume "t \<in> set ts"
  then show "resolve (tool_name t) ts = Inr t" by (rule resolve_member[OF assms])
next
  fix t t' :: "'a tool" assume t: "t \<in> set ts" and n: "tool_name t' = tool_name t"
  have "tool_name t' \<in> set (map tool_name ts)" using t n by force
  then show "register default_policy t' ts = Inl (DuplicateToolError (tool_name t))"
    using register_duplicate[of t' ts] n by simp
qed

theorem resolve_returns_registered_tool_witness:
  "register_all default_policy demo_tools [] = Inr demo_tools
   \<and> resolve ''calculate'' demo_tools = Inr (demo_tools ! 1)
   \<and> register default_policy
        \<lparr>tool_name = ''calculate'', tool_description = ''Another calculator'',
         tool_schema = [], tool_body = ()\<rparr> demo_tools
      = Inl (DuplicateToolError ''calculate'')"
proof -
  have d: "distinct (map tool_name demo_tools)" by (simp add: demo_tools_def)
  have m: "demo_tools ! 1 \<in> set demo_tools" by (simp add: demo_tools_def)
  have n: "tool_name (demo_tools ! 1) = ''calculate''" by (simp add: demo_tools_def)
  show ?thesis
    using resolve_returns_registered_tool[OF d] m n by fastforce
qed


section \<open>The tool-call loop stops at its bound\<close>

lemma submit_history: "history (fst (submit backend s)) = history s"
  by (simp add: submit_def split: prod.splits)

lemma submit_submissions: "submissions (fst (submit backend s)) = Suc (submissions s)"
  by (simp add: submit_def split: prod.splits)

lemma append_messages_history: "history (append_messages s ms) = history s @ ms"
  by (simp add: append_messages_def)

lemma append_messages_submissions: "submissions (append_messages s ms) = submissions s"
  by (simp add: append_messages_def)

lemma await_reply_submissions_le:
  "submissions (fst (await_reply backend invoke bound s)) \<le> submissions s + bound + 1"
proof (induction bound arbitrary: s)
  case 0
  show ?case
    using submit_submissions[of backend s]
    by (subst await_reply.simps)
       (auto split: prod.splits backend_reply.splits simp: append_messages_submissions)
next
  case (Suc n)
  show ?case
  proof (cases "submit backend s")
    case (Pair s' reply)
    then have sub: "submissions s' = Suc (submissions s)"
      using submit_submissions[of backend s] by simp
    show ?thesis
    proof (cases reply)
      case (ToolCalls requests)
      have "submissions (fst (await_reply backend invoke n
              (append_messages s' (map (observation invoke) requests))))
            \<le> submissions (append_messages s' (map (observation invoke) requests)) + n + 1"
        by (rule Suc.IH)
      then show ?thesis
        using Pair ToolCalls sub
        by (subst await_reply.simps) (simp add: append_messages_submissions)
    qed (use Pair sub in \<open>subst await_reply.simps, simp add: append_messages_submissions\<close>)+
  qed
qed

lemma await_reply_always_tool_calls:
  assumes "\<forall>b h. \<exists>b' requests. backend b h = (b', ToolCalls requests)"
  shows "snd (await_reply backend invoke bound s) = Inl IterationBoundExceededError
         \<and> submissions (fst (await_reply backend invoke bound s)) = submissions s + bound + 1"
proof (induction bound arbitrary: s)
  case 0
  obtain b' requests where "backend (backend_connection s) (history s) = (b', ToolCalls requests)"
    using assms by blast
  then show ?case
    by (subst (1 2) await_reply.simps) (simp add: submit_def)
next
  case (Suc n)
  obtain b' requests where b: "backend (backend_connection s) (history s) = (b', ToolCalls requests)"
    using assms by blast
  let ?s' = "s\<lparr>backend_connection := b', submissions := Suc (submissions s)\<rparr>"
  let ?t = "append_messages ?s' (map (observation invoke) requests)"
  have step: "await_reply backend invoke (Suc n) s = await_reply backend invoke n ?t"
    using b by (subst await_reply.simps) (simp add: submit_def)
  have "submissions ?t = Suc (submissions s)" by (simp add: append_messages_def)
  then show ?case using Suc.IH[of ?t] by (simp add: step)
qed

lemma send_submissions_le:
  "submissions (fst (send backend invoke bound s user_text)) \<le> submissions s + 1 + bound"
  using await_reply_submissions_le[of backend invoke bound
          "append_messages s [Message User user_text]"]
  by (simp add: send_def append_messages_submissions)


text \<open>
  C4, on the session of the specification. With a backend that answers every submission
  with more tool calls, \<^verbatim>\<open>send\<close> returns, and what it returns is
  \<^verbatim>\<open>IterationBoundExceededError\<close>; it has then submitted the history once and resubmitted
  it exactly \<open>bound\<close> times (a bound of 5 means 5 resend cycles). For any backend at all the
  number of resend cycles is at most the bound (\<open>send_submissions_le\<close>).
\<close>

theorem send_stops_at_iteration_bound:
  assumes "\<forall>b h. \<exists>b' requests. backend b h = (b', ToolCalls requests)"
  shows "snd (send backend invoke bound s user_text) = Inl IterationBoundExceededError
         \<and> submissions (fst (send backend invoke bound s user_text))
             = submissions s + 1 + bound"
  using await_reply_always_tool_calls[OF assms, of invoke bound
          "append_messages s [Message User user_text]"]
  by (simp add: send_def append_messages_submissions)

theorem send_stops_at_iteration_bound_witness:
  "snd (send looping_backend demo_invoke 5 new_session ''What is 15 * 24?'')
     = Inl IterationBoundExceededError
   \<and> submissions (fst (send looping_backend demo_invoke 5 new_session ''What is 15 * 24?'')) = 6"
proof -
  have h: "\<forall>b h. \<exists>b' requests. looping_backend b h = (b', ToolCalls requests)"
    by (simp add: looping_backend_def)
  have z: "submissions new_session = 0" by (simp add: new_session_def)
  show ?thesis
    using send_stops_at_iteration_bound[OF h, of demo_invoke 5 new_session "''What is 15 * 24?''"] z
    by simp
qed

section \<open>The history only grows\<close>

lemma observation_role: "role (observation invoke request) = ToolObservation"
  by (simp add: observation_def)

lemma await_reply_appends:
  "\<exists>obs. (\<forall>m\<in>set obs. role m = ToolObservation)
     \<and> (case snd (await_reply backend invoke bound s) of
           Inr reply \<Rightarrow>
             history (fst (await_reply backend invoke bound s))
               = history s @ obs @ [Message Agent reply]
         | Inl err \<Rightarrow>
             history (fst (await_reply backend invoke bound s)) = history s @ obs)"
proof (induction bound arbitrary: s)
  case 0
  show ?case
  proof (cases "submit backend s")
    case (Pair s' reply)
    then have h: "history s' = history s" using submit_history[of backend s] by simp
    show ?thesis
      by (rule exI[of _ "[]"], subst (1 2 3) await_reply.simps)
         (simp add: Pair h append_messages_history split: backend_reply.splits)
  qed
next
  case (Suc n)
  show ?case
  proof (cases "submit backend s")
    case (Pair s' reply)
    then have h: "history s' = history s" using submit_history[of backend s] by simp
    show ?thesis
    proof (cases reply)
      case (ToolCalls requests)
      let ?new = "map (observation invoke) requests"
      let ?t = "append_messages s' ?new"
      have step: "await_reply backend invoke (Suc n) s = await_reply backend invoke n ?t"
        by (subst await_reply.simps) (simp add: Pair ToolCalls)
      obtain obs where o: "\<forall>m\<in>set obs. role m = ToolObservation"
        and c: "case snd (await_reply backend invoke n ?t) of
           Inr reply \<Rightarrow>
             history (fst (await_reply backend invoke n ?t))
               = history ?t @ obs @ [Message Agent reply]
         | Inl err \<Rightarrow>
             history (fst (await_reply backend invoke n ?t)) = history ?t @ obs"
        using Suc.IH[of ?t] by blast
      have r: "\<forall>m\<in>set (?new @ obs). role m = ToolObservation"
        using o by (auto simp: observation_role)
      show ?thesis
        apply (rule exI[of _ "?new @ obs"])
        using r c by (simp add: step append_messages_history h split: sum.splits)
    next
      case (FinalReply reply_text)
      show ?thesis
        by (rule exI[of _ "[]"], subst (1 2 3) await_reply.simps)
           (simp add: Pair FinalReply h append_messages_history)
    next
      case (BackendFailed cause)
      show ?thesis
        by (rule exI[of _ "[]"], subst (1 2 3) await_reply.simps)
           (simp add: Pair BackendFailed h)
    qed
  qed
qed

lemma send_appends:
  "\<exists>obs. (\<forall>m\<in>set obs. role m = ToolObservation)
     \<and> (case snd (send backend invoke bound s user_text) of
           Inr reply \<Rightarrow>
             history (fst (send backend invoke bound s user_text))
               = history s @ Message User user_text # obs @ [Message Agent reply]
         | Inl err \<Rightarrow>
             history (fst (send backend invoke bound s user_text))
               = history s @ Message User user_text # obs)"
proof -
  let ?t = "append_messages s [Message User user_text]"
  have s: "send backend invoke bound s user_text = await_reply backend invoke bound ?t"
    by (simp add: send_def)
  obtain obs where o: "\<forall>m\<in>set obs. role m = ToolObservation"
    and c: "case snd (await_reply backend invoke bound ?t) of
           Inr reply \<Rightarrow>
             history (fst (await_reply backend invoke bound ?t))
               = history ?t @ obs @ [Message Agent reply]
         | Inl err \<Rightarrow>
             history (fst (await_reply backend invoke bound ?t)) = history ?t @ obs"
    using await_reply_appends[of backend invoke bound ?t] by blast
  show ?thesis
    unfolding s
    by (rule exI[of _ obs], cases "snd (await_reply backend invoke bound ?t)")
       (use o c in \<open>simp_all add: append_messages_history\<close>)
qed

lemma send_prefix:
  "prefix (history s) (history (fst (send backend invoke bound s user_text)))"
proof -
  obtain obs where
    "case snd (send backend invoke bound s user_text) of
           Inr reply \<Rightarrow>
             history (fst (send backend invoke bound s user_text))
               = history s @ Message User user_text # obs @ [Message Agent reply]
         | Inl err \<Rightarrow>
             history (fst (send backend invoke bound s user_text))
               = history s @ Message User user_text # obs"
    using send_appends[of backend invoke bound s user_text] by blast
  then show ?thesis by (cases "snd (send backend invoke bound s user_text)") simp_all
qed

lemma session_send_message_prefix:
  "prefix (history s) (history (fst (session_send_message backend invoke bound s user_text)))"
proof -
  obtain s1 r where e: "send backend invoke bound s user_text = (s1, r)"
    by (cases "send backend invoke bound s user_text") auto
  then have "prefix (history s) (history s1)"
    using send_prefix[of s backend invoke bound user_text] by simp
  then show ?thesis
    by (cases r) (simp_all add: session_send_message_def e)
qed

lemma loop_body_session:
  "fst (snd (loop_body thinking send_message chat user_input)) = chat
   \<or> fst (snd (loop_body thinking send_message chat user_input))
       = fst (send_message chat user_input)"
  by (simp add: loop_body_def split: prod.splits sum.splits)

lemma main_loop_preserves:
  assumes refl: "\<And>c. R c c"
    and trans: "\<And>a b c. R a b \<Longrightarrow> R b c \<Longrightarrow> R a c"
    and step: "\<And>c u. R c (fst (send_message c u))"
  shows "R chat (fst (snd (main_loop thinking send_message chat lines)))"
proof (induction lines arbitrary: chat)
  case Nil
  show ?case by (simp add: refl)
next
  case (Cons l lines)
  obtain evs chat' e where b: "loop_body thinking send_message chat l = (evs, chat', e)"
    by (cases "loop_body thinking send_message chat l") auto
  have r: "R chat chat'"
    using loop_body_session[of thinking send_message chat l] b refl step by auto
  show ?case
  proof (cases e)
    case None
    have "R chat' (fst (snd (main_loop thinking send_message chat' lines)))"
      by (rule Cons.IH)
    then have "R chat (fst (snd (main_loop thinking send_message chat' lines)))"
      using r trans by blast
    moreover obtain evs' final where
      m: "main_loop thinking send_message chat' lines = (evs', final)"
      by (cases "main_loop thinking send_message chat' lines") auto
    ultimately show ?thesis using b None by simp
  next
    case (Some en)
    then show ?thesis using b r by simp
  qed
qed

lemma main_loop_history_prefix:
  "prefix (history s)
     (history (fst (snd (main_loop thinking (session_send_message backend invoke bound) s lines))))"
  by (rule main_loop_preserves[where R = "\<lambda>a b. prefix (history a) (history b)"])
     (auto intro: session_send_message_prefix)

lemma successful_turns_history:
  assumes "successful_turns backend invoke bound s texts = Some (s', replies)"
  shows "length replies = length texts
     \<and> (\<exists>obss. length obss = length texts
          \<and> (\<forall>obs\<in>set obss. \<forall>m\<in>set obs. role m = ToolObservation)
          \<and> history s' = history s @ concat (map turn_messages (zip texts (zip obss replies))))"
  using assms
proof (induction texts arbitrary: s replies)
  case Nil
  then show ?case by simp
next
  case (Cons u texts)
  from Cons.prems obtain s1 reply replies' where
    s1: "send backend invoke bound s u = (s1, Inr reply)"
    and rest: "successful_turns backend invoke bound s1 texts = Some (s', replies')"
    and rs: "replies = reply # replies'"
    by (auto split: prod.splits sum.splits option.splits)
  obtain obs where o: "\<forall>m\<in>set obs. role m = ToolObservation"
    and h1: "history s1 = history s @ Message User u # obs @ [Message Agent reply]"
    using send_appends[of backend invoke bound s u] s1 by auto
  from Cons.IH[OF rest] obtain obss where
    l: "length replies' = length texts" "length obss = length texts"
    and a: "\<forall>obs\<in>set obss. \<forall>m\<in>set obs. role m = ToolObservation"
    and h2: "history s' = history s1 @ concat (map turn_messages (zip texts (zip obss replies')))"
    by blast
  have "length (obs # obss) = length (u # texts)"
    "\<forall>obs\<in>set (obs # obss). \<forall>m\<in>set obs. role m = ToolObservation"
    "history s' = history s
        @ concat (map turn_messages (zip (u # texts) (zip (obs # obss) replies)))"
    using l a o h1 h2 rs by (simp_all add: turn_messages_def)
  then show ?case using l rs by (intro conjI exI[of _ "obs # obss"]) simp_all
qed

text \<open>
  C5, on the session of the specification under the loop of the scripts. Every \<^verbatim>\<open>send\<close>,
  failed or not, leaves the history it found as a prefix of the history it leaves; so
  does every run of the console loop. After N successful turns the history is the
  history before followed by the messages of the turns in the order of the turns, each
  turn being its user message, its tool observations and its agent reply: nothing is
  removed, moved or merged.
\<close>

theorem history_is_append_only:
  "prefix (history s) (history (fst (send backend invoke bound s user_text)))
   \<and> prefix (history s)
       (history (fst (snd (main_loop thinking (session_send_message backend invoke bound)
                            s lines))))
   \<and> (successful_turns backend invoke bound s texts = Some (s', replies) \<longrightarrow>
        length replies = length texts
        \<and> (\<exists>obss. length obss = length texts
             \<and> (\<forall>obs\<in>set obss. \<forall>m\<in>set obs. role m = ToolObservation)
             \<and> history s'
                 = history s @ concat (map turn_messages (zip texts (zip obss replies)))))"
  using send_prefix main_loop_history_prefix successful_turns_history by blast

theorem history_is_append_only_witness:
  "successful_turns replying_backend demo_invoke 5 new_session [''hi'', ''there'']
     = Some (\<lparr>history = [Message User ''hi'', Message Agent ''Re: hi'',
                         Message User ''there'', Message Agent ''Re: there''],
              backend_connection = (), submissions = 2\<rparr>, [''Re: hi'', ''Re: there''])
   \<and> (\<exists>obss. length obss = 2
        \<and> [Message User ''hi'', Message Agent ''Re: hi'',
            Message User ''there'', Message Agent ''Re: there'']
          = concat (map turn_messages (zip [''hi'', ''there''] (zip obss [''Re: hi'', ''Re: there'']))))"
proof -
  let ?s' = "\<lparr>history = [Message User ''hi'', Message Agent ''Re: hi'',
                         Message User ''there'', Message Agent ''Re: there''],
              backend_connection = (), submissions = 2\<rparr>"
  have e: "successful_turns replying_backend demo_invoke 5 new_session [''hi'', ''there'']
     = Some (?s', [''Re: hi'', ''Re: there''])"
    by (simp add: send_def await_reply.simps submit_def append_messages_def
        replying_backend_def new_session_def)
  have z: "history new_session = []" by (simp add: new_session_def)
  have "\<exists>obss. length obss = length [''hi'', ''there'']
        \<and> (\<forall>obs\<in>set obss. \<forall>m\<in>set obs. role m = ToolObservation)
        \<and> history ?s' = history new_session
            @ concat (map turn_messages (zip [''hi'', ''there''] (zip obss [''Re: hi'', ''Re: there''])))"
    using history_is_append_only[where backend = replying_backend and invoke = demo_invoke
        and bound = 5 and s = new_session and texts = "[''hi'', ''there'']" and s' = ?s'
        and replies = "[''Re: hi'', ''Re: there'']"] e
    by blast
  then obtain obss where l: "length obss = length [''hi'', ''there'']"
    and h: "history ?s' = history new_session
            @ concat (map turn_messages (zip [''hi'', ''there''] (zip obss [''Re: hi'', ''Re: there''])))"
    by blast
  have "length obss = 2" using l by simp
  moreover have "[Message User ''hi'', Message Agent ''Re: hi'',
            Message User ''there'', Message Agent ''Re: there'']
          = concat (map turn_messages (zip [''hi'', ''there''] (zip obss [''Re: hi'', ''Re: there''])))"
    using h unfolding z by simp
  ultimately show ?thesis using e by blast
qed

section \<open>A failed backend call\<close>

text \<open>
  The handler of the loop, for any session: an exception of \<^verbatim>\<open>chat.send_message\<close> that
  derives from \<^verbatim>\<open>Exception\<close> and whose \<^verbatim>\<open>str\<close> gives a text is printed after
  \<^verbatim>\<open>Error: \<close>, and the loop goes round again on the session the call left.
\<close>

lemma main_loop_reports_exception:
  assumes "send_message chat user_input = (chat', Inl e)"
    and "caught_by_except_Exception e" and "exc_str e = Inr description"
    and "str_lower user_input \<notin> set exit_words" and "str_strip user_input \<noteq> []"
  shows "main_loop thinking send_message chat (user_input # rest) =
           (case main_loop thinking send_message chat' rest of
              (evs, final) \<Rightarrow>
                (Prompt ''You: '' # map Print thinking
                   @ [Send user_input, Print (''Error: '' @ description @ newline)] @ evs,
                 final))"
  using assms(1,2,3)
  by (simp add: loop_body_turn[OF assms(4,5)] format_exc_def split: prod.splits)

lemma raised_error_caught: "caught_by_except_Exception (raised_error err)"
  by (cases err) (simp_all add: caught_by_except_Exception_def)

lemma raised_error_str: "exc_str (raised_error err) = Inr (error_description err)"
  by (cases err) simp_all

lemma session_send_message_failure:
  "send backend invoke bound s user_text = (s', Inl err) \<Longrightarrow>
   session_send_message backend invoke bound s user_text = (s', Inl (raised_error err))"
  by (simp add: session_send_message_def)

text \<open>
  C3, the loop of the scripts on the session of the specification. When a turn's \<^verbatim>\<open>send\<close>
  fails, with a \<^verbatim>\<open>BackendError\<close> for a failure of the backend or with the exceeded
  bound, the loop prints \<^verbatim>\<open>Error: \<close> followed by the description of the error and does
  not end: the run goes on with the lines that follow, on the same session, and the
  history that session had before the failed turn is still there, in order, at the
  front of the history the next \<^verbatim>\<open>send\<close> finds.
\<close>

theorem backend_failure_is_reported:
  assumes "send backend invoke bound s user_input = (s', Inl err)"
    and "str_lower user_input \<notin> set exit_words" and "str_strip user_input \<noteq> []"
  shows "main_loop thinking (session_send_message backend invoke bound) s (user_input # rest) =
           (case main_loop thinking (session_send_message backend invoke bound) s' rest of
              (evs, final) \<Rightarrow>
                (Prompt ''You: '' # map Print thinking
                   @ [Send user_input, Print (''Error: '' @ error_description err @ newline)]
                   @ evs,
                 final))
         \<and> prefix (history s) (history s')"
proof
  show "main_loop thinking (session_send_message backend invoke bound) s (user_input # rest) =
           (case main_loop thinking (session_send_message backend invoke bound) s' rest of
              (evs, final) \<Rightarrow>
                (Prompt ''You: '' # map Print thinking
                   @ [Send user_input, Print (''Error: '' @ error_description err @ newline)]
                   @ evs,
                 final))"
    by (rule main_loop_reports_exception[where
          send_message = "session_send_message backend invoke bound" and chat = s
          and e = "raised_error err",
          OF session_send_message_failure[OF assms(1)]
          raised_error_caught raised_error_str assms(2,3)])
  show "prefix (history s) (history s')"
    using send_prefix[of s backend invoke bound user_input] assms(1) by simp
qed

theorem backend_failure_is_reported_witness:
  "send flaky_backend demo_invoke 5
       \<lparr>history = [], backend_connection = 0, submissions = 0\<rparr> ''hi''
     = (session_after_hi, Inr ''Hello'')
   \<and> main_loop [] (session_send_message flaky_backend demo_invoke 5) session_after_hi
       [''more'', ''exit'']
     = ([Prompt ''You: '', Send ''more'', Print (''Error: network unreachable'' @ newline),
         Prompt ''You: '', Print ''Agent: Goodbye!''],
        \<lparr>history = [Message User ''hi'', Message Agent ''Hello'', Message User ''more''],
         backend_connection = 2, submissions = 2\<rparr>,
        Returned)
   \<and> prefix (history session_after_hi)
        [Message User ''hi'', Message Agent ''Hello'', Message User ''more'']"
proof -
  let ?s' = "\<lparr>history = [Message User ''hi'', Message Agent ''Hello'', Message User ''more''],
         backend_connection = 2 :: nat, submissions = 2\<rparr>"
  have h0: "send flaky_backend demo_invoke 5
       \<lparr>history = [], backend_connection = 0, submissions = 0\<rparr> ''hi''
     = (session_after_hi, Inr ''Hello'')"
    by (simp add: send_def await_reply.simps submit_def append_messages_def
        flaky_backend_def session_after_hi_def)
  have h1: "send flaky_backend demo_invoke 5 session_after_hi ''more''
     = (?s', Inl (BackendError ''network unreachable''))"
    by (simp add: send_def await_reply.simps submit_def append_messages_def
        flaky_backend_def session_after_hi_def)
  have h2: "str_lower ''more'' \<notin> set exit_words" by code_simp
  have h3: "str_strip ''more'' \<noteq> []" by code_simp
  have h4: "str_lower ''exit'' \<in> set exit_words" by code_simp
  show ?thesis
    using backend_failure_is_reported[OF h1 h2 h3, of "[]" "[''exit'']"] h0
    by (simp add: loop_body_exit[OF h4])
qed

text \<open>
  An interrupt by the user during the call is not a failure of the backend:
  \<^verbatim>\<open>KeyboardInterrupt\<close> does not derive from \<^verbatim>\<open>Exception\<close>, passes the handler and ends
  \<^verbatim>\<open>main\<close>.
\<close>

lemma interrupted_backend_call_ends_main:
  "main_loop [] interrupted_chat [] [''hello'', ''again''] =
     ([Prompt ''You: '', Send ''hello''], [],
      Raised (PyExc BaseExceptionOnly ''KeyboardInterrupt'' (Inr [])))"
  by code_simp

end
